theory Spec2Isabelle
  imports Main "HOL-Library.Sublist" "HOL-Library.AList"
begin

section \<open>bun-plugin-coffeescript: a shallow embedding of src/index.ts\<close>

text \<open>
  The plugin is a thin adapter around three collaborators that are not part of the
  repository: the text read of \<^verbatim>\<open>Bun.file(path).text()\<close>, \<^verbatim>\<open>CSON.parse\<close> and the
  CoffeeScript \<^verbatim>\<open>compile\<close>. They are parameters of the model (the record \<open>env\<close>);
  each either returns a value or throws, and a throw is the left injection of a sum.
  An \<^verbatim>\<open>async\<close> function that throws gives a rejected promise, so \<open>Inl e\<close> as the
  outcome of a load is "the promise rejects with \<open>e\<close>" and \<open>Inr r\<close> is "the promise
  resolves to \<open>r\<close>".

  JavaScript strings are sequences of code units; they are modelled by \<open>string\<close>.
  A plain JavaScript object is modelled by the list of its own enumerable string-keyed
  properties in the order they were defined, with pairwise distinct keys. For keys that
  are not array indices, and the compiler's option names are not, this is the order in
  which JavaScript enumerates them; the place JavaScript gives to array-index keys is not
  modelled, and every general statement below reads an object by key. The adapter never
  computes with a number, so \<open>Num\<close> carries an integer. Property values are immutable
  trees: the adapter copies them from one object to another and never looks inside.
  The collaborators are functions of their arguments and leave the object store alone.
\<close>

subsection \<open>Values, objects and the object store\<close>

datatype jsval =
    Undefined
  | Null
  | Bool bool
  | Num int
  | Str string
  | Arr "jsval list"
  | Obj "(string \<times> jsval) list"

type_synonym obj = "(string \<times> jsval) list"

text \<open>A thrown value; the adapter never inspects or builds one.\<close>

datatype js_error = Thrown jsval

text \<open>
  Objects that the adapter shares with its caller live in a store and are passed by
  reference: an address is an index into the store, and a new object is put at the end.
\<close>

type_synonym addr = nat

definition alloc :: "obj list \<Rightarrow> obj \<Rightarrow> addr \<times> obj list" where
  "alloc h ob = (length h, h @ [ob])"

text \<open>
  A reference is good when it points into the store and the object there has each key
  once, as every JavaScript object has.
\<close>

definition is_object :: "obj list \<Rightarrow> addr \<Rightarrow> bool" where
  "is_object h a = (a < length h \<and> distinct (map fst (h ! a)))"

text \<open>\<^verbatim>\<open>Object.entries(obj)\<close>: the \<^verbatim>\<open>[key, value]\<close> pairs in enumeration order.\<close>

definition Object_entries :: "obj \<Rightarrow> (string \<times> jsval) list" where
  "Object_entries ob = ob"

text \<open>
  Defining a property on an object: an existing key keeps its place and takes the new
  value, a new key goes to the end. This is \<open>AList.update\<close>.
  \<^verbatim>\<open>Object.fromEntries(entries)\<close> defines the entries one after the other on an empty
  object, and the spread \<^verbatim>\<open>{ ...source }\<close> inside an object literal defines the
  properties of \<open>source\<close> one after the other on the object built so far.
\<close>

definition Object_fromEntries :: "(string \<times> jsval) list \<Rightarrow> obj" where
  "Object_fromEntries entries = fold (\<lambda>(key, v) ob. AList.update key v ob) entries []"

definition object_spread :: "obj \<Rightarrow> obj \<Rightarrow> obj" where
  "object_spread target source =
     fold (\<lambda>(key, v) ob. AList.update key v ob) (Object_entries source) target"

subsection \<open>Strings and the filter pattern\<close>

text \<open>
  \<^verbatim>\<open>String.prototype.endsWith(searchString)\<close>: with \<open>start = length s - length search\<close>,
  false when \<open>start\<close> is negative, otherwise whether the code units of \<open>s\<close> from
  \<open>start\<close> on are those of \<open>search\<close>.
\<close>

definition endsWith :: "string \<Rightarrow> string \<Rightarrow> bool" where
  "endsWith s search =
     (let start = int (length s) - int (length search)
      in if start < 0 then False else drop (nat start) s = search)"

text \<open>
  The fragment of regular expressions that the filter \<^verbatim>\<open>/\.(coffee|cson|litcoffee)$/\<close>
  is written in: literal code units, concatenation, alternation and the assertion \<^verbatim>\<open>$\<close>
  (without the \<^verbatim>\<open>m\<close> flag: the end of the input). \<open>rx_match r s\<close> lists what is left
  of \<open>s\<close> after each way \<open>r\<close> matches at its start, in backtracking order.
  \<^verbatim>\<open>RegExp.prototype.test\<close> looks for a match starting at index 0, then 1, and so on up
  to the length of the input.
\<close>

datatype regex =
    Lit string
  | Cat regex regex
  | Or regex regex
  | End_of_input

fun rx_match :: "regex \<Rightarrow> string \<Rightarrow> string list" where
  "rx_match (Lit l) s = (if prefix l s then [drop (length l) s] else [])"
| "rx_match (Cat r1 r2) s = concat (map (rx_match r2) (rx_match r1 s))"
| "rx_match (Or r1 r2) s = rx_match r1 s @ rx_match r2 s"
| "rx_match End_of_input s = (if s = [] then [s] else [])"

fun RegExp_test :: "regex \<Rightarrow> string \<Rightarrow> bool" where
  "RegExp_test r [] = (rx_match r [] \<noteq> [])"
| "RegExp_test r (c # cs) = (rx_match r (c # cs) \<noteq> [] \<or> RegExp_test r cs)"

text \<open>The pattern of line 67: \<^verbatim>\<open>/\.(coffee|cson|litcoffee)$/\<close>.\<close>

definition filter_pattern :: regex where
  "filter_pattern =
     Cat (Lit ''.'')
       (Cat (Or (Lit ''coffee'') (Or (Lit ''cson'') (Lit ''litcoffee''))) End_of_input)"

subsection \<open>The collaborators and the world\<close>

text \<open>
  What \<^verbatim>\<open>compile\<close> returns depends on the options it is given: the compiled text as a
  string, or an object (the text together with source maps under \<^verbatim>\<open>sourceMap: true\<close>,
  the syntax tree under \<^verbatim>\<open>ast: true\<close>). Its result is therefore a value, not a string.
\<close>

record env =
  file_text :: "string \<Rightarrow> js_error + string"
  CSON_parse :: "string \<Rightarrow> js_error + jsval"
  compile :: "string \<Rightarrow> obj \<Rightarrow> js_error + jsval"

text \<open>
  Every call of a collaborator is an effect of the adapter; the world keeps them in the
  order they are made, next to the object store. The compiler is handed a reference to
  an options object; the event keeps the object's properties at the time of the call.
\<close>

datatype event =
    FileRead string
  | CsonParsed string
  | Compiled string obj

record world =
  heap :: "obj list"
  calls :: "event list"

definition record_call :: "event \<Rightarrow> world \<Rightarrow> world" where
  "record_call ev w = w\<lparr>calls := calls w @ [ev]\<rparr>"

subsection \<open>The results handed to the host\<close>

text \<open>
  \<^verbatim>\<open>{ contents, loader }\<close> and \<^verbatim>\<open>{ exports, loader }\<close>: the payload first, the
  loader tag second. At run time \<open>contents\<close> is whatever value the code puts there.
\<close>

datatype OnLoadResult =
    OnLoadResultSourceCode jsval string
  | OnLoadResultObject jsval string



type_synonym outcome = "js_error + OnLoadResult"

subsection \<open>omit, loadCson, loadCoffeeScript\<close>

text \<open>
  \<^verbatim>\<open>omit(obj, keys)\<close> (lines 33 to 35): the entries of \<open>obj\<close> whose key is not among
  \<open>keys\<close>, made into a new object.
\<close>

definition omit :: "obj list \<Rightarrow> addr \<Rightarrow> string list \<Rightarrow> addr \<times> obj list" where
  "omit h ob keys =
     alloc h (Object_fromEntries
       (filter (\<lambda>(key, _). \<not> (key \<in> set keys)) (Object_entries (h ! ob))))"

text \<open>\<^verbatim>\<open>loadCson(path)\<close> (lines 37 to 46).\<close>

definition loadCson :: "env \<Rightarrow> string \<Rightarrow> world \<Rightarrow> outcome \<times> world" where
  "loadCson E path w =
     (let w1 = record_call (FileRead path) w in
      case file_text E path of
        Inl e \<Rightarrow> (Inl e, w1)
      | Inr fileContents \<Rightarrow>
          (let w2 = record_call (CsonParsed fileContents) w1 in
           case CSON_parse E fileContents of
             Inl e \<Rightarrow> (Inl e, w2)
           | Inr exports \<Rightarrow> (Inr (OnLoadResultObject exports ''object''), w2)))"

text \<open>
  \<^verbatim>\<open>loadCoffeeScript(path, options)\<close> (lines 48 to 61). The object literal
  \<^verbatim>\<open>{ filename: path, ...compilerOptions }\<close> first defines \<open>filename\<close> and then spreads
  the sanitized options over it.
\<close>

definition loadCoffeeScript :: "env \<Rightarrow> string \<Rightarrow> addr \<Rightarrow> world \<Rightarrow> outcome \<times> world" where
  "loadCoffeeScript E path options w =
     (let w1 = record_call (FileRead path) w in
      case file_text E path of
        Inl e \<Rightarrow> (Inl e, w1)
      | Inr fileContents \<Rightarrow>
          (let (compilerOptions, h1) = omit (heap w1) options [''inlineMap''];
               (arg, h2) = alloc h1
                  (object_spread [(''filename'', Str path)] (h1 ! compilerOptions));
               w2 = record_call (Compiled fileContents (h2 ! arg)) (w1\<lparr>heap := h2\<rparr>)
           in case compile E fileContents (h2 ! arg) of
             Inl e \<Rightarrow> (Inl e, w2)
           | Inr contents \<Rightarrow> (Inr (OnLoadResultSourceCode contents ''js''), w2)))"

subsection \<open>The plugin\<close>

text \<open>
  The host's builder is the collaborator that \<^verbatim>\<open>setup\<close> talks to; its \<^verbatim>\<open>onLoad\<close>
  keeps the pairs of a filter and a callback that were registered, in order.
\<close>

type_synonym callback = "string \<Rightarrow> world \<Rightarrow> outcome \<times> world"

record OnLoadConfig =
  filter_of :: regex

record PluginBuilder =
  registrations :: "(OnLoadConfig \<times> callback) list"

definition onLoad :: "PluginBuilder \<Rightarrow> OnLoadConfig \<Rightarrow> callback \<Rightarrow> PluginBuilder" where
  "onLoad builder config cb = builder\<lparr>registrations := registrations builder @ [(config, cb)]\<rparr>"

record BunPlugin =
  name :: string
  setup_hook :: "PluginBuilder \<Rightarrow> PluginBuilder"

text \<open>The arrow function of lines 67 to 73, closed over \<open>options\<close>.\<close>

definition onLoad_callback :: "env \<Rightarrow> addr \<Rightarrow> callback" where
  "onLoad_callback E options path =
     (if endsWith path ''.cson'' then loadCson E path
      else loadCoffeeScript E path options)"

text \<open>
  \<^verbatim>\<open>Plugin(options = {})\<close> (lines 63 to 76). The argument is a reference to the caller's
  options object, or is left out, and then the default \<^verbatim>\<open>{}\<close> is a new empty object.
\<close>

definition Plugin :: "env \<Rightarrow> addr option \<Rightarrow> world \<Rightarrow> BunPlugin \<times> world" where
  "Plugin E arg w =
     (let (options, h) = (case arg of None \<Rightarrow> alloc (heap w) [] | Some a \<Rightarrow> (a, heap w))
      in (\<lparr>name = ''bun-plugin-coffeescript'',
           setup_hook = (\<lambda>builder.
             onLoad builder \<lparr>filter_of = filter_pattern\<rparr> (onLoad_callback E options))\<rparr>,
          w\<lparr>heap := h\<rparr>))"

text \<open>The host presenting a sequence of paths to a callback, one after the other.\<close>

fun run_loads :: "callback \<Rightarrow> string list \<Rightarrow> world \<Rightarrow> outcome list \<times> world" where
  "run_loads cb [] w = ([], w)"
| "run_loads cb (p # ps) w =
     (let (r, w1) = cb p w; (rs, w2) = run_loads cb ps w1 in (r # rs, w2))"

subsection \<open>A concrete environment\<close>

text \<open>
  A small file system, parser and compiler to run the definitions on: two script files
  (one of them malformed), two object-notation files (one of them malformed) and a text
  file with an extension the filter does not know. Every other path is missing. As the
  CoffeeScript compiler does, this one returns an object with the text and the source map
  when it is given \<^verbatim>\<open>sourceMap: true\<close>, and a string otherwise.
\<close>

definition demo_env :: env where
  "demo_env =
     \<lparr>file_text = (\<lambda>path.
        if path = ''a.coffee'' then Inr ''x = 1''
        else if path = ''bad.coffee'' then Inr ''if''
        else if path = ''a.cson'' then Inr ''b: [1], a: {c: true}''
        else if path = ''bad.cson'' then Inr ''b: [''
        else if path = ''notes.txt'' then Inr ''y = 2''
        else Inl (Thrown (Str ''ENOENT''))),
      CSON_parse = (\<lambda>text.
        if text = ''b: [1], a: {c: true}''
        then Inr (Obj [(''b'', Arr [Num 1]), (''a'', Obj [(''c'', Bool True)])])
        else Inl (Thrown (Str ''SyntaxError''))),
      compile = (\<lambda>src opts.
        if src = ''if'' then Inl (Thrown (Str ''unexpected end of input''))
        else if map_of opts ''sourceMap'' = Some (Bool True)
        then Inr (Obj [(''js'', Str (src @ '';'')), (''v3SourceMap'', Str ''{}'')])
        else Inr (Str (src @ '';'')))\<rparr>"

text \<open>The caller's options object \<^verbatim>\<open>{ bare: true, inlineMap: true }\<close> at address 0.\<close>

definition demo_world :: world where
  "demo_world = \<lparr>heap = [[(''bare'', Bool True), (''inlineMap'', Bool True)]], calls = []\<rparr>"

text \<open>The caller's options object \<^verbatim>\<open>{ filename: "other.coffee" }\<close> at address 0.\<close>

definition filename_world :: world where
  "filename_world = \<lparr>heap = [[(''filename'', Str ''other.coffee'')]], calls = []\<rparr>"


section \<open>Properties\<close>

subsection \<open>Objects\<close>

lemma update_fresh: "k \<notin> fst ` set al \<Longrightarrow> AList.update k v al = al @ [(k, v)]"
  by (induction al) auto

lemma fold_update_distinct:
  "distinct (map fst (acc @ es)) \<Longrightarrow>
   fold (\<lambda>(key, v) ob. AList.update key v ob) es acc = acc @ es"
proof (induction es arbitrary: acc)
  case Nil
  then show ?case by simp
next
  case (Cons e es)
  obtain k v where e: "e = (k, v)" by (cases e)
  from Cons.prems have fresh: "k \<notin> fst ` set acc" by (auto simp: e)
  from Cons.prems have d: "distinct (map fst ((acc @ [(k, v)]) @ es))" by (auto simp: e)
  show ?case using Cons.IH [OF d] by (simp add: e update_fresh [OF fresh])
qed

lemma fromEntries_distinct:
  "distinct (map fst es) \<Longrightarrow> Object_fromEntries es = es"
  using fold_update_distinct [of "[]" es] by (simp add: Object_fromEntries_def)

lemma map_of_fold_update:
  "map_of (fold (\<lambda>(key, v) ob. AList.update key v ob) es acc) x =
     (case map_of (rev es) x of Some v \<Rightarrow> Some v | None \<Rightarrow> map_of acc x)"
proof (induction es arbitrary: acc)
  case Nil
  then show ?case by simp
next
  case (Cons e es)
  obtain k v where e: "e = (k, v)" by (cases e)
  show ?case by (auto simp: e Cons.IH AList.update_conv' map_add_def split: option.splits)
qed

subsection \<open>Strings and the filter\<close>

lemma endsWith_suffix: "endsWith s x \<longleftrightarrow> suffix x s"
proof
  assume "endsWith s x"
  then have le: "length x \<le> length s" and d: "drop (length s - length x) s = x"
    by (auto simp: endsWith_def Let_def nat_diff_distrib' split: if_splits)
  have "s = take (length s - length x) s @ x"
    using d by (metis append_take_drop_id)
  then show "suffix x s" by (rule suffixI)
next
  assume "suffix x s"
  then obtain ys where "s = ys @ x" by (auto simp: suffix_def)
  then show "endsWith s x" by (simp add: endsWith_def Let_def)
qed

lemma RegExp_test_iff: "RegExp_test r s \<longleftrightarrow> (\<exists>t. suffix t s \<and> rx_match r t \<noteq> [])"
  by (induction s) (auto simp: suffix_Cons)

lemma filter_pattern_here:
  "rx_match filter_pattern t \<noteq> [] \<longleftrightarrow> t = ''.coffee'' \<or> t = ''.cson'' \<or> t = ''.litcoffee''"
  unfolding filter_pattern_def
  by (auto simp: prefix_def)


subsection \<open>The sanitizer and the loaders\<close>

lemma map_of_omit_filter:
  "map_of (filter (\<lambda>(key, _). \<not> (key \<in> set keys)) ob) k =
     (if k \<in> set keys then None else map_of ob k)"
  by (induction ob) auto

lemma map_of_rev_distinct:
  "distinct (map fst ob) \<Longrightarrow> map_of (rev ob) = map_of ob"
  by (metis distinct_rev map_of_inject_set rev_map set_rev)

lemma spread_lookup:
  "distinct (map fst source) \<Longrightarrow>
   map_of (object_spread target source) k =
     (case map_of source k of Some v \<Rightarrow> Some v | None \<Rightarrow> map_of target k)"
  by (simp add: object_spread_def Object_entries_def map_of_fold_update map_of_rev_distinct)

lemma omit_eq:
  "omit h a keys =
     (length h, h @ [Object_fromEntries (filter (\<lambda>(key, _). \<not> (key \<in> set keys)) (h ! a))])"
  by (simp add: omit_def alloc_def Object_entries_def)

lemma omit_distinct:
  "distinct (map fst (h ! a)) \<Longrightarrow>
   omit h a keys = (length h, h @ [filter (\<lambda>(key, _). \<not> (key \<in> set keys)) (h ! a)])"
  by (simp add: omit_eq fromEntries_distinct distinct_map_filter)

lemma loadCson_eq:
  "loadCson E p w =
     (case file_text E p of
        Inl e \<Rightarrow> (Inl e, w\<lparr>calls := calls w @ [FileRead p]\<rparr>)
      | Inr t \<Rightarrow>
          (case CSON_parse E t of
             Inl e \<Rightarrow> Inl e
           | Inr v \<Rightarrow> Inr (OnLoadResultObject v ''object''),
           w\<lparr>calls := calls w @ [FileRead p, CsonParsed t]\<rparr>))"
  by (simp add: loadCson_def record_call_def Let_def split: sum.splits)

lemma loadCoffeeScript_eq:
  "loadCoffeeScript E p a w =
     (case file_text E p of
        Inl e \<Rightarrow> (Inl e, w\<lparr>calls := calls w @ [FileRead p]\<rparr>)
      | Inr t \<Rightarrow>
          (let san = Object_fromEntries
                 (filter (\<lambda>(key, _). \<not> (key \<in> set [''inlineMap''])) (heap w ! a));
               opts = object_spread [(''filename'', Str p)] san
           in (case compile E t opts of
                 Inl e \<Rightarrow> Inl e
               | Inr c \<Rightarrow> Inr (OnLoadResultSourceCode c ''js''),
               w\<lparr>heap := heap w @ [san, opts],
                 calls := calls w @ [FileRead p, Compiled t opts]\<rparr>)))"
  by (simp add: loadCoffeeScript_def record_call_def omit_eq alloc_def Let_def nth_append
      split: sum.splits)


subsection \<open>The callback and the store\<close>

lemma callback_heap_extends:
  "\<exists>ext. heap (snd (onLoad_callback E a p w)) = heap w @ ext"
  by (simp add: onLoad_callback_def loadCson_eq loadCoffeeScript_eq Let_def split: sum.splits)

lemma callback_result_cong:
  "heap w' ! a = heap w ! a \<Longrightarrow>
   fst (onLoad_callback E a p w') = fst (onLoad_callback E a p w)"
  by (simp add: onLoad_callback_def loadCson_eq loadCoffeeScript_eq Let_def split: sum.splits)

lemma run_loads_heap_extends:
  "\<exists>ext. heap (snd (run_loads (onLoad_callback E a) ps w)) = heap w @ ext"
proof (induction ps arbitrary: w)
  case Nil
  then show ?case by simp
next
  case (Cons p ps)
  obtain r w1 where step: "onLoad_callback E a p w = (r, w1)"
    by (cases "onLoad_callback E a p w")
  obtain ext1 where e1: "heap w1 = heap w @ ext1"
    using callback_heap_extends [of E a p w] by (auto simp: step)
  obtain rs w2 where rest: "run_loads (onLoad_callback E a) ps w1 = (rs, w2)"
    by (cases "run_loads (onLoad_callback E a) ps w1")
  obtain ext2 where e2: "heap w2 = heap w1 @ ext2"
    using Cons.IH [of w1] by (auto simp: rest)
  show ?case
    by (rule exI [of _ "ext1 @ ext2"]) (simp add: step rest e1 e2)
qed

section \<open>The claims\<close>

text \<open>
  Claim C1, as the specification states it: for every path \<open>p\<close> and every configuration
  bag, the Script Loader invokes the compiler with the filename field equal to \<open>p\<close>, also
  when the bag has a \<open>filename\<close> key of its own.

  The code spreads the sanitized bag after \<open>filename: path\<close>, so a \<open>filename\<close> key of
  the bag replaces the path: with the bag \<^verbatim>\<open>{ filename: "other.coffee" }\<close> the compiler is
  called for \<open>a.coffee\<close> with the filename \<open>other.coffee\<close>.
\<close>

theorem filename_override_counterexample:
  "calls (snd (loadCoffeeScript demo_env ''a.coffee'' 0 filename_world)) =
     [FileRead ''a.coffee'', Compiled ''x = 1'' [(''filename'', Str ''other.coffee'')]]
   \<and> map_of [(''filename'', Str ''other.coffee'')] ''filename'' \<noteq> Some (Str ''a.coffee'')"
  by (simp add: loadCoffeeScript_eq demo_env_def filename_world_def Object_fromEntries_def
      object_spread_def Object_entries_def Let_def)

text \<open>
  Claim C1, amended: when the file is read, the Script Loader invokes the compiler once,
  on the file's text, and the outcome of the load is the compiler's. The filename field
  of the options it passes is the input path when the configuration bag has no
  \<open>filename\<close> key, and is the bag's own value when it has one.
\<close>

theorem compiler_filename:
  assumes "is_object (heap w) options"
    and "file_text E p = Inr t"
  shows "\<exists>opts.
     calls (snd (loadCoffeeScript E p options w)) = calls w @ [FileRead p, Compiled t opts]
     \<and> fst (loadCoffeeScript E p options w) =
         (case compile E t opts of
            Inl e \<Rightarrow> Inl e
          | Inr c \<Rightarrow> Inr (OnLoadResultSourceCode c ''js''))
     \<and> map_of opts ''filename'' =
         (case map_of (heap w ! options) ''filename'' of
            None \<Rightarrow> Some (Str p)
          | Some v \<Rightarrow> Some v)"
proof -
  let ?san = "filter (\<lambda>(key, _). \<not> (key \<in> set [''inlineMap''])) (heap w ! options)"
  let ?opts = "object_spread [(''filename'', Str p)] ?san"
  have d0: "distinct (map fst (heap w ! options))"
    using assms(1) by (simp add: is_object_def)
  have san: "Object_fromEntries ?san = ?san"
    using d0 by (simp add: fromEntries_distinct distinct_map_filter)
  have d: "distinct (map fst ?san)"
    using d0 by (simp add: distinct_map_filter)
  have keep: "map_of ?san ''filename'' = map_of (heap w ! options) ''filename''"
    using map_of_omit_filter [of "[''inlineMap'']" "heap w ! options" "''filename''"]
    by simp
  have sp: "map_of ?opts ''filename'' =
          (case map_of ?san ''filename'' of Some v \<Rightarrow> Some v
           | None \<Rightarrow> map_of [(''filename'', Str p)] ''filename'')"
    by (rule spread_lookup [OF d])
  have look: "map_of ?opts ''filename'' =
          (case map_of (heap w ! options) ''filename'' of None \<Rightarrow> Some (Str p)
           | Some v \<Rightarrow> Some v)"
    unfolding sp keep by (simp split: option.splits)
  have run: "loadCoffeeScript E p options w =
      (case compile E t ?opts of Inl e \<Rightarrow> Inl e
       | Inr c \<Rightarrow> Inr (OnLoadResultSourceCode c ''js''),
       w\<lparr>heap := heap w @ [?san, ?opts],
         calls := calls w @ [FileRead p, Compiled t ?opts]\<rparr>)"
    using assms(2) san by (simp add: loadCoffeeScript_eq Let_def)
  show ?thesis
    using look by (intro exI [of _ ?opts]) (simp add: run)
qed

theorem compiler_filename_witness:
  "is_object (heap demo_world) 0
   \<and> file_text demo_env ''a.coffee'' = Inr ''x = 1''
   \<and> (\<exists>opts.
        calls (snd (loadCoffeeScript demo_env ''a.coffee'' 0 demo_world)) =
          calls demo_world @ [FileRead ''a.coffee'', Compiled ''x = 1'' opts]
        \<and> fst (loadCoffeeScript demo_env ''a.coffee'' 0 demo_world) =
          (case compile demo_env ''x = 1'' opts of
             Inl e \<Rightarrow> Inl e
           | Inr c \<Rightarrow> Inr (OnLoadResultSourceCode c ''js''))
        \<and> map_of opts ''filename'' = Some (Str ''a.coffee''))"
proof -
  have h1: "is_object (heap demo_world) 0"
    by (simp add: demo_world_def is_object_def)
  have h2: "file_text demo_env ''a.coffee'' = Inr ''x = 1''"
    by (simp add: demo_env_def)
  have h3: "map_of (heap demo_world ! 0) ''filename'' = None"
    by (simp add: demo_world_def)
  show ?thesis
    using h1 h2 compiler_filename [OF h1 h2] by (simp add: h3)
qed

text \<open>
  Claim C2: the registered filter matches a path if and only if the path ends with
  \<open>.coffee\<close>, \<open>.litcoffee\<close> or \<open>.cson\<close>. A path that only contains one of them, such as
  \<open>app.coffee.bak\<close> or \<open>app.coffees\<close>, is not matched.
\<close>

theorem filter_matches_iff_suffix:
  "RegExp_test filter_pattern p \<longleftrightarrow>
     endsWith p ''.coffee'' \<or> endsWith p ''.litcoffee'' \<or> endsWith p ''.cson''"
proof -
  have "RegExp_test filter_pattern p \<longleftrightarrow>
          (\<exists>t. suffix t p \<and> (t = ''.coffee'' \<or> t = ''.cson'' \<or> t = ''.litcoffee''))"
    by (simp only: RegExp_test_iff filter_pattern_here)
  also have "\<dots> \<longleftrightarrow> suffix ''.coffee'' p \<or> suffix ''.litcoffee'' p \<or> suffix ''.cson'' p"
    by blast
  finally show ?thesis by (simp only: endsWith_suffix)
qed

theorem filter_matches_iff_suffix_witness:
  "RegExp_test filter_pattern ''src/utils/helper.coffee''
   \<and> RegExp_test filter_pattern ''README.litcoffee''
   \<and> RegExp_test filter_pattern ''data/settings.cson''
   \<and> \<not> RegExp_test filter_pattern ''app.coffee.bak''
   \<and> \<not> RegExp_test filter_pattern ''app.coffees''
   \<and> \<not> RegExp_test filter_pattern ''app.js''"
  using filter_matches_iff_suffix [of "''src/utils/helper.coffee''"]
    filter_matches_iff_suffix [of "''README.litcoffee''"]
    filter_matches_iff_suffix [of "''data/settings.cson''"]
    filter_matches_iff_suffix [of "''app.coffee.bak''"]
    filter_matches_iff_suffix [of "''app.coffees''"]
    filter_matches_iff_suffix [of "''app.js''"]
  by (simp add: endsWith_def del: RegExp_test.simps)




text \<open>
  Claim C4: the sanitizer returns a new object that holds the bag's entries, in their
  order, without the key \<open>inlineMap\<close>: looking \<open>inlineMap\<close> up in it gives nothing, every
  other key has the value it has in the bag. It has no failing branch. In the Script
  Loader, no compiler call is given an \<open>inlineMap\<close> option, and an error of the load is
  the error of the read or an error of the compiler. The outcome of a load does not
  depend on the key: it is the outcome for the same bag without \<open>inlineMap\<close>.
\<close>

theorem sanitizer_drops_inlineMap:
  assumes "is_object (heap w) options"
  shows "omit (heap w) options [''inlineMap''] =
       (length (heap w),
        heap w @ [filter (\<lambda>(key, _). key \<noteq> ''inlineMap'') (heap w ! options)])
     \<and> map_of (snd (omit (heap w) options [''inlineMap'']) !
               fst (omit (heap w) options [''inlineMap''])) ''inlineMap'' = None
     \<and> (\<forall>k. k \<noteq> ''inlineMap'' \<longrightarrow>
          map_of (snd (omit (heap w) options [''inlineMap'']) !
                  fst (omit (heap w) options [''inlineMap''])) k =
          map_of (heap w ! options) k)
     \<and> (\<exists>new. calls (snd (loadCoffeeScript E p options w)) = calls w @ new
          \<and> (\<forall>t opts. Compiled t opts \<in> set new \<longrightarrow> map_of opts ''inlineMap'' = None))
     \<and> (\<forall>e. fst (loadCoffeeScript E p options w) = Inl e \<longrightarrow>
          file_text E p = Inl e \<or> (\<exists>t opts. compile E t opts = Inl e))
     \<and> (\<forall>w'. heap w' ! options =
               filter (\<lambda>(key, _). key \<noteq> ''inlineMap'') (heap w ! options) \<longrightarrow>
          fst (loadCoffeeScript E p options w') = fst (loadCoffeeScript E p options w))"
proof -
  let ?san = "filter (\<lambda>(key, _). \<not> (key \<in> set [''inlineMap''])) (heap w ! options)"
  let ?opts = "object_spread [(''filename'', Str p)] ?san"
  have d0: "distinct (map fst (heap w ! options))"
    using assms by (simp add: is_object_def)
  have om: "omit (heap w) options [''inlineMap''] = (length (heap w), heap w @ [?san])"
    by (rule omit_distinct [OF d0])
  have san: "Object_fromEntries ?san = ?san"
    using d0 by (simp add: fromEntries_distinct distinct_map_filter)
  have d: "distinct (map fst ?san)"
    using d0 by (simp add: distinct_map_filter)
  have look: "map_of ?san k = (if k \<in> set [''inlineMap''] then None else map_of (heap w ! options) k)"
    for k by (rule map_of_omit_filter)
  have sp: "map_of ?opts ''inlineMap'' =
          (case map_of ?san ''inlineMap'' of Some v \<Rightarrow> Some v
           | None \<Rightarrow> map_of [(''filename'', Str p)] ''inlineMap'')"
    by (rule spread_lookup [OF d])
  have gone: "map_of ?opts ''inlineMap'' = None"
    unfolding sp look by simp
  have c1: "omit (heap w) options [''inlineMap''] =
       (length (heap w),
        heap w @ [filter (\<lambda>(key, _). key \<noteq> ''inlineMap'') (heap w ! options)])"
    using om by simp
  have c2: "map_of (snd (omit (heap w) options [''inlineMap'']) !
               fst (omit (heap w) options [''inlineMap''])) ''inlineMap'' = None"
    unfolding om using look [of "''inlineMap''"] by simp
  have c3: "\<forall>k. k \<noteq> ''inlineMap'' \<longrightarrow>
          map_of (snd (omit (heap w) options [''inlineMap'']) !
                  fst (omit (heap w) options [''inlineMap''])) k =
          map_of (heap w ! options) k"
    unfolding om using look by simp
  have c4: "\<exists>new. calls (snd (loadCoffeeScript E p options w)) = calls w @ new
          \<and> (\<forall>t opts. Compiled t opts \<in> set new \<longrightarrow> map_of opts ''inlineMap'' = None)"
  proof (cases "file_text E p")
    case (Inl e)
    then show ?thesis by (simp add: loadCoffeeScript_eq)
  next
    case (Inr t)
    have "calls (snd (loadCoffeeScript E p options w)) =
        calls w @ [FileRead p, Compiled t ?opts]"
      using Inr san by (simp add: loadCoffeeScript_eq Let_def)
    then show ?thesis using gone by auto
  qed
  have c5: "\<forall>e. fst (loadCoffeeScript E p options w) = Inl e \<longrightarrow>
          file_text E p = Inl e \<or> (\<exists>t opts. compile E t opts = Inl e)"
    by (auto simp: loadCoffeeScript_eq Let_def split: sum.splits)
  have c6: "\<forall>w'. heap w' ! options =
               filter (\<lambda>(key, _). key \<noteq> ''inlineMap'') (heap w ! options) \<longrightarrow>
          fst (loadCoffeeScript E p options w') = fst (loadCoffeeScript E p options w)"
    by (simp add: loadCoffeeScript_eq Let_def case_prod_unfold split: sum.splits)
  show ?thesis using c1 c2 c3 c4 c5 c6 by blast
qed

theorem sanitizer_drops_inlineMap_witness:
  "is_object (heap demo_world) 0
   \<and> omit (heap demo_world) 0 [''inlineMap''] =
       (1, [[(''bare'', Bool True), (''inlineMap'', Bool True)], [(''bare'', Bool True)]])
   \<and> calls (snd (loadCoffeeScript demo_env ''a.coffee'' 0 demo_world)) =
       [FileRead ''a.coffee'',
        Compiled ''x = 1'' [(''filename'', Str ''a.coffee''), (''bare'', Bool True)]]
   \<and> fst (loadCoffeeScript demo_env ''a.coffee'' 0 demo_world) =
       Inr (OnLoadResultSourceCode (Str ''x = 1;'') ''js'')"
proof -
  have h: "is_object (heap demo_world) 0"
    by (simp add: demo_world_def is_object_def)
  have run: "loadCoffeeScript demo_env ''a.coffee'' 0 demo_world =
     (Inr (OnLoadResultSourceCode (Str ''x = 1;'') ''js''),
      \<lparr>heap = [[(''bare'', Bool True), (''inlineMap'', Bool True)], [(''bare'', Bool True)],
                [(''filename'', Str ''a.coffee''), (''bare'', Bool True)]],
        calls = [FileRead ''a.coffee'',
          Compiled ''x = 1'' [(''filename'', Str ''a.coffee''), (''bare'', Bool True)]]\<rparr>)"
    by (simp add: loadCoffeeScript_eq demo_env_def demo_world_def Object_fromEntries_def
        object_spread_def Object_entries_def Let_def)
  show ?thesis
    using h sanitizer_drops_inlineMap [OF h, of demo_env "''a.coffee''"]
    by (simp add: run) (simp add: demo_world_def)
qed

text \<open>
  Claim C5: a load whose file read fails rejects with the read's error and calls nothing
  else; a load whose CSON parse fails rejects with the parser's error; a load whose
  compiler call fails rejects with the compiler's error. Nothing is called after the
  failing call: no recovery, no retry. In particular a missing file never resolves.
\<close>

theorem load_failures_propagate:
  "(file_text E p = Inl e \<longrightarrow>
      fst (onLoad_callback E options p w) = Inl e
      \<and> calls (snd (onLoad_callback E options p w)) = calls w @ [FileRead p])
   \<and> (endsWith p ''.cson'' \<and> file_text E p = Inr t \<and> CSON_parse E t = Inl e \<longrightarrow>
      fst (onLoad_callback E options p w) = Inl e
      \<and> calls (snd (onLoad_callback E options p w)) = calls w @ [FileRead p, CsonParsed t])
   \<and> (calls (snd (onLoad_callback E options p w)) = calls w @ [FileRead p, Compiled t opts]
      \<and> compile E t opts = Inl e \<longrightarrow>
      fst (onLoad_callback E options p w) = Inl e)
   \<and> (\<not> endsWith p ''.cson'' \<and> file_text E p = Inr t \<longrightarrow>
      (\<exists>opts. calls (snd (onLoad_callback E options p w)) =
         calls w @ [FileRead p, Compiled t opts]))"
  by (auto simp: onLoad_callback_def loadCson_eq loadCoffeeScript_eq Let_def split: sum.splits)

theorem load_failures_propagate_witness:
  "fst (onLoad_callback demo_env 0 ''missing.coffee'' demo_world) = Inl (Thrown (Str ''ENOENT''))
   \<and> calls (snd (onLoad_callback demo_env 0 ''missing.coffee'' demo_world)) =
       calls demo_world @ [FileRead ''missing.coffee'']
   \<and> fst (onLoad_callback demo_env 0 ''bad.cson'' demo_world) = Inl (Thrown (Str ''SyntaxError''))
   \<and> fst (onLoad_callback demo_env 0 ''bad.coffee'' demo_world) =
       Inl (Thrown (Str ''unexpected end of input''))"
proof -
  have r1: "file_text demo_env ''missing.coffee'' = Inl (Thrown (Str ''ENOENT''))"
    by (simp add: demo_env_def)
  have r3: "endsWith ''bad.cson'' ''.cson'' \<and> file_text demo_env ''bad.cson'' = Inr ''b: [''
      \<and> CSON_parse demo_env ''b: ['' = Inl (Thrown (Str ''SyntaxError''))"
    by (simp add: demo_env_def endsWith_def)
  have r4: "calls (snd (onLoad_callback demo_env 0 ''bad.coffee'' demo_world)) =
      calls demo_world @ [FileRead ''bad.coffee'',
        Compiled ''if'' [(''filename'', Str ''bad.coffee''), (''bare'', Bool True)]]
      \<and> compile demo_env ''if'' [(''filename'', Str ''bad.coffee''), (''bare'', Bool True)] =
        Inl (Thrown (Str ''unexpected end of input''))"
    by (simp add: onLoad_callback_def loadCoffeeScript_eq demo_env_def demo_world_def
        Object_fromEntries_def object_spread_def Object_entries_def Let_def endsWith_def)
  note a1 = load_failures_propagate
      [where E = demo_env and p = "''missing.coffee''" and options = 0 and w = demo_world,
       THEN conjunct1, THEN mp, OF r1]
  note a2 = load_failures_propagate
      [where E = demo_env and p = "''bad.cson''" and options = 0 and w = demo_world,
       THEN conjunct2, THEN conjunct1, THEN mp, OF r3, THEN conjunct1]
  note a3 = load_failures_propagate
      [where E = demo_env and p = "''bad.coffee''" and options = 0 and w = demo_world,
       THEN conjunct2, THEN conjunct2, THEN conjunct1, THEN mp, OF r4]
  show ?thesis
    using a1 a2 a3 by (intro conjI) (erule conjunct1, erule conjunct2, assumption+)
qed

text \<open>
  Claim C6: for a path that ends with \<open>.cson\<close> whose text the parser accepts, the
  \<open>exports\<close> field of the result is the very value the parser returned.
\<close>

theorem cson_exports_verbatim:
  assumes "endsWith p ''.cson''"
    and "file_text E p = Inr t"
    and "CSON_parse E t = Inr v"
  shows "fst (onLoad_callback E options p w) = Inr (OnLoadResultObject v ''object'')"
  using assms by (simp add: onLoad_callback_def loadCson_eq)

theorem cson_exports_verbatim_witness:
  "endsWith ''a.cson'' ''.cson''
   \<and> file_text demo_env ''a.cson'' = Inr ''b: [1], a: {c: true}''
   \<and> CSON_parse demo_env ''b: [1], a: {c: true}'' =
       Inr (Obj [(''b'', Arr [Num 1]), (''a'', Obj [(''c'', Bool True)])])
   \<and> fst (onLoad_callback demo_env 0 ''a.cson'' demo_world) =
       Inr (OnLoadResultObject (Obj [(''b'', Arr [Num 1]), (''a'', Obj [(''c'', Bool True)])])
         ''object'')"
proof -
  have h1: "endsWith ''a.cson'' ''.cson''"
    by (simp add: endsWith_def)
  have h2: "file_text demo_env ''a.cson'' = Inr ''b: [1], a: {c: true}''"
    by (simp add: demo_env_def)
  have h3: "CSON_parse demo_env ''b: [1], a: {c: true}'' =
      Inr (Obj [(''b'', Arr [Num 1]), (''a'', Obj [(''c'', Bool True)])])"
    by (simp add: demo_env_def)
  show ?thesis
    using h1 h2 h3 cson_exports_verbatim [OF h1 h2 h3, of 0 demo_world] by simp
qed

text \<open>
  Claim C7: loading is deterministic. A second invocation of the callback on the same
  path, in the world the first invocation leaves behind, has the outcome of the first;
  more generally the outcome for a path is the same after any sequence of loads.
  (The file system, the parser and the compiler are functions in this model.)
\<close>

theorem load_deterministic:
  assumes "is_object (heap w) options"
  shows "fst (onLoad_callback E options p (snd (onLoad_callback E options p w))) =
           fst (onLoad_callback E options p w)
     \<and> fst (onLoad_callback E options p (snd (run_loads (onLoad_callback E options) ps w))) =
           fst (onLoad_callback E options p w)"
proof -
  obtain ext1 where e1: "heap (snd (onLoad_callback E options p w)) = heap w @ ext1"
    using callback_heap_extends by blast
  obtain ext2 where
    e2: "heap (snd (run_loads (onLoad_callback E options) ps w)) = heap w @ ext2"
    using run_loads_heap_extends by blast
  have s1: "heap (snd (onLoad_callback E options p w)) ! options = heap w ! options"
    using assms by (simp add: e1 nth_append is_object_def)
  have s2: "heap (snd (run_loads (onLoad_callback E options) ps w)) ! options =
      heap w ! options"
    using assms by (simp add: e2 nth_append is_object_def)
  show ?thesis
    using callback_result_cong [OF s1] callback_result_cong [OF s2] by simp
qed

theorem load_deterministic_witness:
  "is_object (heap demo_world) 0
   \<and> fst (onLoad_callback demo_env 0 ''a.coffee''
            (snd (onLoad_callback demo_env 0 ''a.coffee'' demo_world))) =
       Inr (OnLoadResultSourceCode (Str ''x = 1;'') ''js'')
   \<and> fst (onLoad_callback demo_env 0 ''a.coffee'' demo_world) =
       Inr (OnLoadResultSourceCode (Str ''x = 1;'') ''js'')"
proof -
  have h: "is_object (heap demo_world) 0"
    by (simp add: demo_world_def is_object_def)
  have first: "fst (onLoad_callback demo_env 0 ''a.coffee'' demo_world) =
       Inr (OnLoadResultSourceCode (Str ''x = 1;'') ''js'')"
    by (simp add: onLoad_callback_def loadCoffeeScript_eq demo_env_def demo_world_def
        endsWith_def Object_fromEntries_def object_spread_def Object_entries_def Let_def)
  show ?thesis
    using h first load_deterministic [OF h, of demo_env "''a.coffee''" "[]"] by simp
qed

text \<open>
  Claim C8: for every options argument, given or left out, the factory returns a plugin
  named \<open>bun-plugin-coffeescript\<close> whose setup hook adds exactly one registration to the
  builder: the filter pattern with the callback. When the argument is left out the
  callback's options are a new empty object.
\<close>

theorem plugin_registers_once:
  "name (fst (Plugin E arg w)) = ''bun-plugin-coffeescript''
   \<and> registrations (setup_hook (fst (Plugin E arg w)) builder) =
       registrations builder @
         [(\<lparr>filter_of = filter_pattern\<rparr>,
           onLoad_callback E (case arg of None \<Rightarrow> length (heap w) | Some a \<Rightarrow> a))]
   \<and> length (registrations (setup_hook (fst (Plugin E arg w)) builder)) =
       length (registrations builder) + 1
   \<and> snd (Plugin E arg w) =
       (case arg of None \<Rightarrow> w\<lparr>heap := heap w @ [[]]\<rparr> | Some a \<Rightarrow> w)"
  by (cases arg) (simp_all add: Plugin_def onLoad_def alloc_def)

theorem plugin_registers_once_witness:
  "name (fst (Plugin demo_env None demo_world)) = ''bun-plugin-coffeescript''
   \<and> name (fst (Plugin demo_env (Some 0) demo_world)) = ''bun-plugin-coffeescript''
   \<and> registrations
        (setup_hook (fst (Plugin demo_env None demo_world)) \<lparr>registrations = []\<rparr>) =
       [(\<lparr>filter_of = filter_pattern\<rparr>, onLoad_callback demo_env 1)]
   \<and> registrations
        (setup_hook (fst (Plugin demo_env (Some 0) demo_world)) \<lparr>registrations = []\<rparr>) =
       [(\<lparr>filter_of = filter_pattern\<rparr>, onLoad_callback demo_env 0)]"
  using plugin_registers_once [of demo_env None demo_world "\<lparr>registrations = []\<rparr>"]
    plugin_registers_once [of demo_env "Some 0" demo_world "\<lparr>registrations = []\<rparr>"]
  by (simp add: demo_world_def)

text \<open>
  Claim C9: the caller's configuration bag is never mutated. After any sequence of load
  invocations the object at the caller's reference, and every other object that was in
  the store before, is what it was; the sanitizer's result is at a new address and the
  bag is untouched by it; creating the plugin changes nothing either.
\<close>

theorem options_never_mutated:
  assumes "is_object (heap w) options"
  shows "heap (snd (run_loads (onLoad_callback E options) ps w)) ! options = heap w ! options
     \<and> take (length (heap w)) (heap (snd (run_loads (onLoad_callback E options) ps w))) =
         heap w
     \<and> fst (omit (heap w) options keys) \<noteq> options
     \<and> snd (omit (heap w) options keys) ! options = heap w ! options
     \<and> snd (Plugin E (Some options) w) = w"
proof -
  obtain ext where
    e: "heap (snd (run_loads (onLoad_callback E options) ps w)) = heap w @ ext"
    using run_loads_heap_extends by blast
  have c1: "heap (snd (run_loads (onLoad_callback E options) ps w)) ! options =
      heap w ! options"
    using assms by (simp add: e nth_append is_object_def)
  have c2: "take (length (heap w))
      (heap (snd (run_loads (onLoad_callback E options) ps w))) = heap w"
    by (simp add: e)
  have c3: "fst (omit (heap w) options keys) \<noteq> options"
    using assms by (simp add: omit_eq is_object_def)
  have c4: "snd (omit (heap w) options keys) ! options = heap w ! options"
    using assms by (simp add: omit_eq nth_append is_object_def)
  have c5: "snd (Plugin E (Some options) w) = w"
    by (simp add: Plugin_def)
  show ?thesis using c1 c2 c3 c4 c5 by simp
qed

theorem options_never_mutated_witness:
  "is_object (heap demo_world) 0
   \<and> heap (snd (run_loads (onLoad_callback demo_env 0)
         [''a.coffee'', ''a.cson'', ''bad.coffee'', ''a.coffee''] demo_world)) ! 0 =
       [(''bare'', Bool True), (''inlineMap'', Bool True)]"
proof -
  have h: "is_object (heap demo_world) 0"
    by (simp add: demo_world_def is_object_def)
  have v: "heap demo_world ! 0 = [(''bare'', Bool True), (''inlineMap'', Bool True)]"
    by (simp add: demo_world_def)
  note r = options_never_mutated [OF h, of demo_env
      "[''a.coffee'', ''a.cson'', ''bad.coffee'', ''a.coffee'']" "[''inlineMap'']",
      THEN conjunct1]
  show ?thesis
    using h r v by simp
qed

text \<open>
  Claim C10: the callback's routing looks only at whether the path ends with \<open>.cson\<close>.
  For every path that does not, whether or not the filter matches it, the callback is the
  Script Loader: it reads the file; when the read fails the load rejects with that error
  and nothing else is called; when the read gives a text, that text is sent to the
  CoffeeScript compiler with the sanitized options merged over the filename, and the
  outcome of the load is the compiler's outcome on it.
\<close>

theorem callback_routing:
  assumes "\<not> endsWith p ''.cson''"
  shows "onLoad_callback E options p w = loadCoffeeScript E p options w
     \<and> (\<forall>e. file_text E p = Inl e \<longrightarrow>
          onLoad_callback E options p w = (Inl e, w\<lparr>calls := calls w @ [FileRead p]\<rparr>))
     \<and> (\<forall>t. file_text E p = Inr t \<longrightarrow>
          (let opts = object_spread [(''filename'', Str p)]
             (Object_fromEntries
               (filter (\<lambda>(key, _). \<not> (key \<in> set [''inlineMap''])) (heap w ! options)))
           in fst (onLoad_callback E options p w) =
                (case compile E t opts of
                   Inl e \<Rightarrow> Inl e
                 | Inr c \<Rightarrow> Inr (OnLoadResultSourceCode c ''js''))
              \<and> calls (snd (onLoad_callback E options p w)) =
                  calls w @ [FileRead p, Compiled t opts]))"
proof -
  have route: "onLoad_callback E options p w = loadCoffeeScript E p options w"
    using assms by (simp add: onLoad_callback_def)
  have failed: "\<forall>e. file_text E p = Inl e \<longrightarrow>
      onLoad_callback E options p w = (Inl e, w\<lparr>calls := calls w @ [FileRead p]\<rparr>)"
    unfolding route by (simp add: loadCoffeeScript_eq)
  have sent: "\<forall>t. file_text E p = Inr t \<longrightarrow>
          (let opts = object_spread [(''filename'', Str p)]
             (Object_fromEntries
               (filter (\<lambda>(key, _). \<not> (key \<in> set [''inlineMap''])) (heap w ! options)))
           in fst (onLoad_callback E options p w) =
                (case compile E t opts of
                   Inl e \<Rightarrow> Inl e
                 | Inr c \<Rightarrow> Inr (OnLoadResultSourceCode c ''js''))
              \<and> calls (snd (onLoad_callback E options p w)) =
                  calls w @ [FileRead p, Compiled t opts])"
    unfolding route by (simp add: loadCoffeeScript_eq Let_def)
  show ?thesis
    using route failed sent by (intro conjI)
qed

theorem callback_routing_witness:
  "\<not> endsWith ''notes.txt'' ''.cson''
   \<and> \<not> RegExp_test filter_pattern ''notes.txt''
   \<and> file_text demo_env ''notes.txt'' = Inr ''y = 2''
   \<and> fst (onLoad_callback demo_env 0 ''notes.txt'' demo_world) =
       Inr (OnLoadResultSourceCode (Str ''y = 2;'') ''js'')
   \<and> calls (snd (onLoad_callback demo_env 0 ''notes.txt'' demo_world)) =
       [FileRead ''notes.txt'',
        Compiled ''y = 2'' [(''filename'', Str ''notes.txt''), (''bare'', Bool True)]]"
proof -
  have h1: "\<not> endsWith ''notes.txt'' ''.cson''"
    by (simp add: endsWith_def)
  have h2: "\<not> RegExp_test filter_pattern ''notes.txt''"
    by (simp add: filter_pattern_def)
  have h3: "file_text demo_env ''notes.txt'' = Inr ''y = 2''"
    by (simp add: demo_env_def)
  have o: "object_spread [(''filename'', Str ''notes.txt'')]
       (Object_fromEntries
         (filter (\<lambda>(key, _). \<not> (key \<in> set [''inlineMap''])) (heap demo_world ! 0))) =
       [(''filename'', Str ''notes.txt''), (''bare'', Bool True)]"
    by (simp add: demo_world_def Object_fromEntries_def object_spread_def Object_entries_def)
  have k: "calls demo_world = []"
    by (simp add: demo_world_def)
  have c: "compile demo_env ''y = 2'' [(''filename'', Str ''notes.txt''), (''bare'', Bool True)] =
      Inr (Str ''y = 2;'')"
    by (simp add: demo_env_def)
  note r = callback_routing [OF h1, of demo_env 0 demo_world,
      THEN conjunct2, THEN conjunct2, THEN spec, THEN mp, OF h3, unfolded Let_def o k c]
  show ?thesis
    using h1 h2 h3 r by simp
qed

end
